theory Spec2Isabelle
  imports Complex_Main
begin

section \<open>Training metrics of adaptis: \<open>adaptis/model/metrics.py\<close>\<close>

text \<open>
  A shallow embedding of the two tracking metrics \<open>AdaptiveIoU\<close> and \<open>AUC\<close> and of the
  two array computations \<open>_compute_iou\<close> and \<open>_compute_auc\<close> they call.

  Conventions of the embedding.
  \<^item> An array of shape \<open>(N, \<dots>)\<close> is the list of its \<open>N\<close> samples, each sample flattened
    to the list of its positions; every reduction of the source runs over all axes but the
    first (\<open>axis=0, exclude=True\<close>), so the flattening loses nothing.
  \<^item> Floating-point numbers are real numbers; a 0/1 mask is a list of booleans.
  \<^item> Arrays of different shapes are outside the input contract; the array layer rejects
    them, which the model records as the error \<open>ShapeMismatch\<close>.
  \<^item> The mean of an empty array is the not-a-number of numpy; the model records it as the
    outcome \<open>UndefinedMean\<close> instead of carrying it through real arithmetic.
  \<^item> Python names starting with an underscore lose it: \<open>_compute_iou\<close> is
    \<open>compute_iou\<close>, the field \<open>_iou_thresh\<close> is \<open>iou_thresh\<close>.
\<close>

subsection \<open>Arrays\<close>

type_synonym 'a ndarray = "'a list list"

datatype error = ShapeMismatch | UndefinedMean

definition same_shape :: "'a ndarray \<Rightarrow> 'b ndarray \<Rightarrow> bool" where
  "same_shape a b = (map length a = map length b)"

text \<open>\<open>a > c\<close> and \<open>a == c\<close> of an array and a scalar, elementwise.\<close>

definition nd_greater :: "real ndarray \<Rightarrow> real \<Rightarrow> bool ndarray" where
  "nd_greater a c = map (map (\<lambda>x. x > c)) a"

definition nd_equal :: "real ndarray \<Rightarrow> real \<Rightarrow> bool ndarray" where
  "nd_equal a c = map (map (\<lambda>x. x = c)) a"

definition sigmoid :: "real \<Rightarrow> real" where
  "sigmoid x = 1 / (1 + exp (- x))"

definition nd_sigmoid :: "real ndarray \<Rightarrow> real ndarray" where
  "nd_sigmoid a = map (map sigmoid) a"

text \<open>\<open>mx.nd.where(cond, x, y)\<close> on arrays of one shape.\<close>

definition nd_where :: "bool ndarray \<Rightarrow> 'a ndarray \<Rightarrow> 'a ndarray \<Rightarrow> 'a ndarray" where
  "nd_where cond x y =
     map2 (\<lambda>c (xr, yr). map2 (\<lambda>ce (xe, ye). if ce then xe else ye) c (zip xr yr)) cond (zip x y)"

definition zeros_like :: "'a \<Rightarrow> 'b ndarray \<Rightarrow> 'a ndarray" where
  "zeros_like z a = map (map (\<lambda>_. z)) a"

definition logical_or :: "bool ndarray \<Rightarrow> bool ndarray \<Rightarrow> bool ndarray" where
  "logical_or a b = map2 (map2 (\<or>)) a b"

definition logical_and :: "bool ndarray \<Rightarrow> bool ndarray \<Rightarrow> bool ndarray" where
  "logical_and a b = map2 (map2 (\<and>)) a b"

text \<open>Number of set positions of one sample.\<close>

definition count_true :: "bool list \<Rightarrow> nat" where
  "count_true row = length (filter (\<lambda>b. b) row)"

text \<open>
  \<open>mx.nd.sum(m, axis=0, exclude=True)\<close> and \<open>mx.nd.mean(m, axis=0, exclude=True)\<close> of a
  mask: per sample, the number and the fraction of set positions. For a sample without
  positions the source's mean is not a number, which compares false with \<open>> 0\<close>; the
  model's \<open>0 / 0 = 0\<close> compares false as well.
\<close>

definition nd_sum :: "bool ndarray \<Rightarrow> nat list" where
  "nd_sum m = map count_true m"

definition nd_mean :: "bool ndarray \<Rightarrow> real list" where
  "nd_mean m = map (\<lambda>row. real (count_true row) / real (length row)) m"

text \<open>\<open>np.all(a == 0)\<close>.\<close>

definition np_all_zero :: "nat list \<Rightarrow> bool" where
  "np_all_zero a = list_all (\<lambda>x. x = 0) a"

text \<open>\<open>a[mask]\<close>: the entries of \<open>a\<close> where the boolean mask is set, in order.\<close>

definition bool_index :: "'a list \<Rightarrow> bool list \<Rightarrow> 'a list" where
  "bool_index a msk = map fst (filter snd (zip a msk))"

text \<open>\<open>result[mask] = vals\<close>: the set positions of the mask take the values in order.\<close>

fun mask_assign :: "'a list \<Rightarrow> bool list \<Rightarrow> 'a list \<Rightarrow> 'a list" where
  "mask_assign [] ms vs = []"
| "mask_assign (r # rs) [] vs = r # rs"
| "mask_assign (r # rs) (True # ms) [] = r # rs"
| "mask_assign (r # rs) (True # ms) (v # vs) = v # mask_assign rs ms vs"
| "mask_assign (r # rs) (False # ms) vs = r # mask_assign rs ms vs"

text \<open>\<open>a.mean()\<close> of a one-dimensional numpy array.\<close>

definition np_mean :: "real list \<Rightarrow> error + real" where
  "np_mean a = (if a = [] then Inl UndefinedMean else Inr (sum_list a / real (length a)))"

subsection \<open>\<open>_compute_iou\<close>\<close>

text \<open>Line 126: the prediction mask with the ignored positions cleared.\<close>

definition iou_pred_mask :: "bool ndarray \<Rightarrow> bool ndarray \<Rightarrow> bool ndarray" where
  "iou_pred_mask pred_mask ignore_mask = nd_where ignore_mask (zeros_like False pred_mask) pred_mask"

text \<open>Lines 127 and 128: the masks whose per-sample means are \<open>union\<close> and \<open>intersection\<close>.\<close>

definition union_mask :: "bool ndarray \<Rightarrow> bool ndarray \<Rightarrow> bool ndarray \<Rightarrow> bool ndarray" where
  "union_mask pred_mask gt_mask ignore_mask = logical_or (iou_pred_mask pred_mask ignore_mask) gt_mask"

definition intersection_mask :: "bool ndarray \<Rightarrow> bool ndarray \<Rightarrow> bool ndarray \<Rightarrow> bool ndarray" where
  "intersection_mask pred_mask gt_mask ignore_mask =
     logical_and (iou_pred_mask pred_mask ignore_mask) gt_mask"

definition iou_union :: "bool ndarray \<Rightarrow> bool ndarray \<Rightarrow> bool ndarray \<Rightarrow> real list" where
  "iou_union pred_mask gt_mask ignore_mask = nd_mean (union_mask pred_mask gt_mask ignore_mask)"

definition iou_intersection :: "bool ndarray \<Rightarrow> bool ndarray \<Rightarrow> bool ndarray \<Rightarrow> real list" where
  "iou_intersection pred_mask gt_mask ignore_mask =
     nd_mean (intersection_mask pred_mask gt_mask ignore_mask)"

text \<open>Line 131: the divisors \<open>union[nonzero]\<close>.\<close>

definition iou_divisors :: "bool ndarray \<Rightarrow> bool ndarray \<Rightarrow> bool ndarray \<Rightarrow> real list" where
  "iou_divisors pred_mask gt_mask ignore_mask =
     (let union = iou_union pred_mask gt_mask ignore_mask
      in bool_index union (map (\<lambda>u. u > 0) union))"

definition compute_iou ::
  "bool ndarray \<Rightarrow> bool ndarray \<Rightarrow> bool ndarray \<Rightarrow> bool \<Rightarrow> error + real list" where
  "compute_iou pred_mask gt_mask ignore_mask keep_ignore =
     (if \<not> (same_shape ignore_mask pred_mask \<and> same_shape pred_mask gt_mask)
      then Inl ShapeMismatch
      else
        let union = iou_union pred_mask gt_mask ignore_mask;
            intersection = iou_intersection pred_mask gt_mask ignore_mask;
            nonzero = map (\<lambda>u. u > 0) union;
            iou = map2 (/) (bool_index intersection nonzero)
                    (iou_divisors pred_mask gt_mask ignore_mask)
        in if \<not> keep_ignore then Inr iou
           else Inr (mask_assign (map (\<lambda>_. - 1) intersection) nonzero iou))"

subsection \<open>\<open>_compute_auc\<close>\<close>

text \<open>
  The per-sample score is \<open>sklearn.metrics.auc(recall, precision)\<close> of
  \<open>sklearn.metrics.precision_recall_curve(sample_gt, sample_pred)\<close>. The library is not
  part of the repository: the composition of the two is the parameter \<open>pr_auc\<close>.
  The loop of lines 145 to 153 runs over the samples of \<open>pred\<close> and reads the sample of
  \<open>gt_mask\<close> at the same index; \<open>_compute_auc\<close> reaches it on arrays of one shape
  only, so the second equation is the end of both lists.
\<close>

fun auc_loop :: "(bool list \<Rightarrow> real list \<Rightarrow> real) \<Rightarrow> real ndarray \<Rightarrow> bool ndarray \<Rightarrow> real list" where
  "auc_loop pr_auc (sample_pred # pred) (sample_gt # gt_mask) =
     (if count_true sample_gt = 0 then auc_loop pr_auc pred gt_mask
      else pr_auc sample_gt sample_pred # auc_loop pr_auc pred gt_mask)"
| "auc_loop pr_auc pred gt_mask = []"

definition compute_auc ::
  "(bool list \<Rightarrow> real list \<Rightarrow> real) \<Rightarrow> real ndarray \<Rightarrow> bool ndarray \<Rightarrow> bool ndarray
     \<Rightarrow> error + real list" where
  "compute_auc pr_auc pred gt_mask ignore_mask =
     (if \<not> (same_shape ignore_mask pred \<and> same_shape pred gt_mask) then Inl ShapeMismatch
      else Inr (auc_loop pr_auc (nd_where ignore_mask (zeros_like 0 pred) pred) gt_mask))"

subsection \<open>\<open>AdaptiveIoU\<close>\<close>

record AdaptiveIoU =
  pred_outputs :: "string list"
  gt_outputs :: "string list"
  ignore_label :: real
  from_logits :: bool
  iou_thresh :: real
  thresh_step :: real
  thresh_beta :: real
  iou_beta :: real
  ema_iou :: real
  epoch_iou_sum :: real
  epoch_batch_count :: int

text \<open>The constructor, with the defaults of the source written out by the caller.\<close>

definition init_AdaptiveIoU ::
  "real \<Rightarrow> real \<Rightarrow> real \<Rightarrow> real \<Rightarrow> real \<Rightarrow> bool \<Rightarrow> string \<Rightarrow> string \<Rightarrow> AdaptiveIoU" where
  "init_AdaptiveIoU init_thresh thresh_step' thresh_beta' iou_beta' ignore_label' from_logits'
       pred_output gt_output =
     \<lparr> pred_outputs = [pred_output], gt_outputs = [gt_output],
       ignore_label = ignore_label', from_logits = from_logits',
       iou_thresh = init_thresh, thresh_step = thresh_step', thresh_beta = thresh_beta',
       iou_beta = iou_beta', ema_iou = 0, epoch_iou_sum = 0, epoch_batch_count = 0 \<rparr>"

text \<open>
  Lines 45 and 46 (and 98 and 99): \<open>if self._from_logits: pred = mx.nd.sigmoid(pred)\<close>.
\<close>

definition effective_pred :: "bool \<Rightarrow> real ndarray \<Rightarrow> real ndarray" where
  "effective_pred logits pred0 = (if logits then nd_sigmoid pred0 else pred0)"

text \<open>
  The expression \<open>_compute_iou(pred > t, gt_mask, ignore_mask).mean()\<close> of lines 53
  and 56.
\<close>

definition candidate_iou ::
  "real ndarray \<Rightarrow> bool ndarray \<Rightarrow> bool ndarray \<Rightarrow> real \<Rightarrow> error + real" where
  "candidate_iou pred gt_mask ignore_mask t =
     (case compute_iou (nd_greater pred t) gt_mask ignore_mask False of
        Inl e \<Rightarrow> Inl e
      | Inr iou \<Rightarrow> np_mean iou)"

text \<open>
  The loop of lines 55 to 59 over the list of perturbed candidates; the pair is
  \<open>(max_iou, best_thresh)\<close>.
\<close>

fun search_loop ::
  "real ndarray \<Rightarrow> bool ndarray \<Rightarrow> bool ndarray \<Rightarrow> real list \<Rightarrow> real \<times> real
     \<Rightarrow> error + real \<times> real" where
  "search_loop pred gt_mask ignore_mask [] (max_iou, best_thresh) = Inr (max_iou, best_thresh)"
| "search_loop pred gt_mask ignore_mask (t # ts) (max_iou, best_thresh) =
     (case candidate_iou pred gt_mask ignore_mask t of
        Inl e \<Rightarrow> Inl e
      | Inr temp_iou \<Rightarrow>
          if temp_iou > max_iou then search_loop pred gt_mask ignore_mask ts (temp_iou, t)
          else search_loop pred gt_mask ignore_mask ts (max_iou, best_thresh))"

definition update :: "AdaptiveIoU \<Rightarrow> real ndarray \<Rightarrow> real ndarray \<Rightarrow> error + AdaptiveIoU" where
  "update self pred0 gt =
     (let gt_mask = nd_greater gt 0;
          pred = effective_pred (from_logits self) pred0;
          gt_mask_area = nd_sum gt_mask
      in if np_all_zero gt_mask_area then Inr self
         else
           let ignore_mask = nd_equal gt (ignore_label self) in
           case candidate_iou pred gt_mask ignore_mask (iou_thresh self) of
             Inl e \<Rightarrow> Inl e
           | Inr max_iou0 \<Rightarrow>
               let best_thresh0 = iou_thresh self in
               case search_loop pred gt_mask ignore_mask
                      [best_thresh0 - thresh_step self, best_thresh0 + thresh_step self]
                      (max_iou0, best_thresh0) of
                 Inl e \<Rightarrow> Inl e
               | Inr (max_iou, best_thresh) \<Rightarrow>
                   Inr (self\<lparr> iou_thresh := thresh_beta self * iou_thresh self
                                  + (1 - thresh_beta self) * best_thresh,
                              ema_iou := iou_beta self * ema_iou self + (1 - iou_beta self) * max_iou,
                              epoch_iou_sum := epoch_iou_sum self + max_iou,
                              epoch_batch_count := epoch_batch_count self + 1 \<rparr>))"

definition get_epoch_value :: "AdaptiveIoU \<Rightarrow> real" where
  "get_epoch_value self =
     (if epoch_batch_count self > 0 then epoch_iou_sum self / real_of_int (epoch_batch_count self)
      else 0)"

definition reset_epoch_stats :: "AdaptiveIoU \<Rightarrow> AdaptiveIoU" where
  "reset_epoch_stats self = self\<lparr> epoch_iou_sum := 0, epoch_batch_count := 0 \<rparr>"

text \<open>
  The predictions the threshold is compared with are probabilities: every value lies
  strictly between 0 and 1, as the values of the logistic transform do.
\<close>

definition probabilities :: "real ndarray \<Rightarrow> bool" where
  "probabilities pred = list_all (list_all (\<lambda>x. 0 < x \<and> x < 1)) pred"

text \<open>
  A sequence of \<open>update\<close> calls, one per batch \<open>(pred, gt)\<close>, as the training loop makes
  them; an error of one call ends the run.
\<close>

fun updates :: "AdaptiveIoU \<Rightarrow> (real ndarray \<times> real ndarray) list \<Rightarrow> error + AdaptiveIoU" where
  "updates self [] = Inr self"
| "updates self ((pred, gt) # batches) =
     (case update self pred gt of Inl e \<Rightarrow> Inl e | Inr self' \<Rightarrow> updates self' batches)"

subsection \<open>\<open>AUC\<close>\<close>

record AUC =
  auc_pred_outputs :: "string list"
  auc_gt_outputs :: "string list"
  auc_ignore_label :: real
  auc_from_logits :: bool
  beta :: real
  ema_auc :: real
  epoch_auc_sum :: real
  auc_epoch_batch_count :: int

definition auc_update ::
  "(bool list \<Rightarrow> real list \<Rightarrow> real) \<Rightarrow> AUC \<Rightarrow> real ndarray \<Rightarrow> real ndarray \<Rightarrow> error + AUC" where
  "auc_update pr_auc self pred0 gt =
     (let gt_mask = nd_greater gt 0;
          pred = effective_pred (auc_from_logits self) pred0;
          gt_mask_area = nd_sum gt_mask
      in if np_all_zero gt_mask_area then Inr self
         else
           let ignore_mask = nd_equal gt (auc_ignore_label self) in
           case compute_auc pr_auc pred gt_mask ignore_mask of
             Inl e \<Rightarrow> Inl e
           | Inr samples_auc \<Rightarrow>
               (case np_mean samples_auc of
                  Inl e \<Rightarrow> Inl e
                | Inr auc \<Rightarrow>
                    Inr (self\<lparr> ema_auc := beta self * ema_auc self + (1 - beta self) * auc,
                               epoch_auc_sum := epoch_auc_sum self + auc,
                               auc_epoch_batch_count := auc_epoch_batch_count self + 1 \<rparr>)))"

subsection \<open>Facts about the array operations\<close>

lemma same_shape_length: "same_shape a b \<Longrightarrow> length a = length b"
  unfolding same_shape_def by (metis length_map)

lemma same_shape_nth: "same_shape a b \<Longrightarrow> k < length a \<Longrightarrow> length (a ! k) = length (b ! k)"
  unfolding same_shape_def by (metis length_map nth_map)

lemma where_row: "map2 (\<lambda>ce (xe, ye). if ce then xe else ye) c (zip (map (\<lambda>_. False) yr) yr)
   = map2 (\<lambda>ce ye. \<not> ce \<and> ye) c yr"
  by (induction c yr rule: list_induct2') auto

lemma iou_pred_mask_eq: "iou_pred_mask pm im = map2 (map2 (\<lambda>ce ye. \<not> ce \<and> ye)) im pm"
proof -
  have "iou_pred_mask pm im = map2 (\<lambda>c yr. map2 (\<lambda>ce (xe, ye). if ce then xe else ye) c (zip (map (\<lambda>_. False) yr) yr)) im pm"
    unfolding iou_pred_mask_def nd_where_def zeros_like_def
    by (induction im pm rule: list_induct2') auto
  then show ?thesis by (simp add: where_row)
qed

lemma union_mask_nth:
  "k < length pm \<Longrightarrow> length im = length pm \<Longrightarrow> length gm = length pm \<Longrightarrow>
   union_mask pm gm im ! k = map2 (\<or>) (map2 (\<lambda>ce ye. \<not> ce \<and> ye) (im ! k) (pm ! k)) (gm ! k)"
  by (simp add: union_mask_def logical_or_def iou_pred_mask_eq)

lemma intersection_mask_nth:
  "k < length pm \<Longrightarrow> length im = length pm \<Longrightarrow> length gm = length pm \<Longrightarrow>
   intersection_mask pm gm im ! k = map2 (\<and>) (map2 (\<lambda>ce ye. \<not> ce \<and> ye) (im ! k) (pm ! k)) (gm ! k)"
  by (simp add: intersection_mask_def logical_and_def iou_pred_mask_eq)

lemma mask_lengths:
  "length im = length pm \<Longrightarrow> length gm = length pm \<Longrightarrow>
   length (union_mask pm gm im) = length pm \<and> length (intersection_mask pm gm im) = length pm"
  by (simp add: union_mask_def intersection_mask_def logical_or_def logical_and_def iou_pred_mask_eq)

lemma count_and_le_or: "count_true (map2 (\<and>) a g) \<le> count_true (map2 (\<or>) a g)"
  unfolding count_true_def
  by (induction a g rule: list_induct2') auto

lemma div_by_pairs:
  "length xs = length ys \<Longrightarrow>
   map2 (/) (bool_index xs (map P ys)) (bool_index ys (map P ys))
     = map (\<lambda>(x, y). x / y) (filter (\<lambda>(x, y). P y) (zip xs ys))"
  unfolding bool_index_def
  by (induction xs ys rule: list_induct2) auto

lemma mask_assign_pairs:
  "length xs = length ys \<Longrightarrow>
   mask_assign (map (\<lambda>_. d) xs) (map P ys) (map (\<lambda>(x, y). f x y) (filter (\<lambda>(x, y). P y) (zip xs ys)))
     = map (\<lambda>(x, y). if P y then f x y else d) (zip xs ys)"
  by (induction xs ys rule: list_induct2) auto


lemma mean_lengths:
  "length im = length pm \<Longrightarrow> length gm = length pm \<Longrightarrow>
   length (iou_union pm gm im) = length pm \<and> length (iou_intersection pm gm im) = length pm"
  by (simp add: iou_union_def iou_intersection_def nd_mean_def mask_lengths)

lemma iou_union_nth:
  "k < length pm \<Longrightarrow> length im = length pm \<Longrightarrow> length gm = length pm \<Longrightarrow>
   iou_union pm gm im ! k =
     real (count_true (union_mask pm gm im ! k)) / real (length (union_mask pm gm im ! k))"
  by (simp add: iou_union_def nd_mean_def mask_lengths)

lemma iou_intersection_nth:
  "k < length pm \<Longrightarrow> length im = length pm \<Longrightarrow> length gm = length pm \<Longrightarrow>
   iou_intersection pm gm im ! k =
     real (count_true (intersection_mask pm gm im ! k))
       / real (length (intersection_mask pm gm im ! k))"
  by (simp add: iou_intersection_def nd_mean_def mask_lengths)

lemma inter_le_union:
  assumes "k < length pm" "length im = length pm" "length gm = length pm"
  shows "0 \<le> iou_intersection pm gm im ! k
       \<and> iou_intersection pm gm im ! k \<le> iou_union pm gm im ! k"
proof -
  let ?a = "map2 (\<lambda>ce ye. \<not> ce \<and> ye) (im ! k) (pm ! k)"
  have len: "length (map2 (\<and>) ?a (gm ! k)) = length (map2 (\<or>) ?a (gm ! k))" by simp
  have "real (count_true (map2 (\<and>) ?a (gm ! k))) / real (length (map2 (\<and>) ?a (gm ! k)))
      \<le> real (count_true (map2 (\<or>) ?a (gm ! k))) / real (length (map2 (\<or>) ?a (gm ! k)))"
    unfolding len by (intro divide_right_mono) (simp_all add: count_and_le_or)
  then show ?thesis
    using assms by (simp add: iou_union_nth iou_intersection_nth union_mask_nth intersection_mask_nth)
qed

lemma compute_iou_drop:
  assumes "same_shape im pm" "same_shape pm gm"
  shows "compute_iou pm gm im False =
     Inr (map (\<lambda>(i, u). i / u)
            (filter (\<lambda>(i, u). u > 0) (zip (iou_intersection pm gm im) (iou_union pm gm im))))"
proof -
  have l: "length im = length pm" "length gm = length pm"
    using assms by (simp_all add: same_shape_length)
  have "length (iou_intersection pm gm im) = length (iou_union pm gm im)"
    using mean_lengths [OF l] by simp
  from div_by_pairs [OF this, of "\<lambda>u. u > 0"] show ?thesis
    using assms by (simp add: compute_iou_def iou_divisors_def Let_def)
qed

lemma compute_iou_keep:
  assumes "same_shape im pm" "same_shape pm gm"
  shows "compute_iou pm gm im True =
     Inr (map (\<lambda>(i, u). if u > 0 then i / u else - 1)
            (zip (iou_intersection pm gm im) (iou_union pm gm im)))"
proof -
  have l: "length im = length pm" "length gm = length pm"
    using assms by (simp_all add: same_shape_length)
  have len: "length (iou_intersection pm gm im) = length (iou_union pm gm im)"
    using mean_lengths [OF l] by simp
  show ?thesis
    using assms div_by_pairs [OF len, of "\<lambda>u. u > 0"]
      mask_assign_pairs [OF len, of "- 1" "\<lambda>u. u > 0" "(/)"]
    by (simp add: compute_iou_def iou_divisors_def Let_def)
qed

lemma compute_iou_Inr:
  "compute_iou pm gm im k = Inr r \<Longrightarrow> same_shape im pm \<and> same_shape pm gm"
  by (auto simp: compute_iou_def split: if_splits)

lemma bool_index_self: "d \<in> set (bool_index xs (map P xs)) \<Longrightarrow> P d"
  unfolding bool_index_def by (induction xs) (auto split: if_splits)

lemma divisors_pos: "d \<in> set (iou_divisors pm gm im) \<Longrightarrow> d > 0"
  unfolding iou_divisors_def Let_def by (rule bool_index_self [of d _ "\<lambda>u. u > 0"])

lemma count_true_mono: "list_all2 (\<longrightarrow>) a b \<Longrightarrow> count_true a \<le> count_true b"
  unfolding count_true_def by (induction a b rule: list_all2_induct) auto

lemma union_row_mono:
  assumes "t1 \<le> (t2::real)"
  shows "list_all2 (\<longrightarrow>)
           (map2 (\<or>) (map2 (\<lambda>ce ye. \<not> ce \<and> ye) i (map (\<lambda>x. x > t2) p)) g)
           (map2 (\<or>) (map2 (\<lambda>ce ye. \<not> ce \<and> ye) i (map (\<lambda>x. x > t1) p)) g)"
  using assms by (auto simp: list_all2_conv_all_nth)

lemma intersection_row_mono:
  assumes "t1 \<le> (t2::real)"
  shows "list_all2 (\<longrightarrow>)
           (map2 (\<and>) (map2 (\<lambda>ce ye. \<not> ce \<and> ye) i (map (\<lambda>x. x > t2) p)) g)
           (map2 (\<and>) (map2 (\<lambda>ce ye. \<not> ce \<and> ye) i (map (\<lambda>x. x > t1) p)) g)"
  using assms by (auto simp: list_all2_conv_all_nth)

lemma nd_greater_shape: "same_shape (nd_greater a c) b = same_shape a b"
  "same_shape b (nd_greater a c) = same_shape b a"
  by (simp_all add: same_shape_def nd_greater_def comp_def)

lemma nd_greater_nth: "k < length a \<Longrightarrow> nd_greater a c ! k = map (\<lambda>x. x > c) (a ! k)"
  by (simp add: nd_greater_def)

lemma masks_mono:
  assumes "t1 \<le> t2" "k < length pred" "length im = length pred" "length gm = length pred"
  shows "iou_intersection (nd_greater pred t2) gm im ! k
           \<le> iou_intersection (nd_greater pred t1) gm im ! k"
    and "iou_union (nd_greater pred t2) gm im ! k \<le> iou_union (nd_greater pred t1) gm im ! k"
proof -
  have l: "length (nd_greater pred t1) = length pred" "length (nd_greater pred t2) = length pred"
    by (simp_all add: nd_greater_def)
  show "iou_intersection (nd_greater pred t2) gm im ! k
           \<le> iou_intersection (nd_greater pred t1) gm im ! k"
    using assms l count_true_mono [OF intersection_row_mono [OF assms(1), of "im ! k" "pred ! k" "gm ! k"]]
    by (simp add: iou_intersection_nth intersection_mask_nth nd_greater_nth divide_right_mono)
  show "iou_union (nd_greater pred t2) gm im ! k \<le> iou_union (nd_greater pred t1) gm im ! k"
    using assms l count_true_mono [OF union_row_mono [OF assms(1), of "im ! k" "pred ! k" "gm ! k"]]
    by (simp add: iou_union_nth union_mask_nth nd_greater_nth divide_right_mono)
qed

lemma ignored_row:
  assumes "j < length i" "length p = length i" "length g = length i" "i ! j"
  shows "\<not> map2 (\<and>) (map2 (\<lambda>ce ye. \<not> ce \<and> ye) i p) g ! j"
    and "map2 (\<or>) (map2 (\<lambda>ce ye. \<not> ce \<and> ye) i p) g ! j = g ! j"
  using assms by simp_all

lemma ratio_range:
  assumes "k < length pm" "length im = length pm" "length gm = length pm"
    and "iou_union pm gm im ! k > 0"
  shows "0 \<le> iou_intersection pm gm im ! k / iou_union pm gm im ! k
       \<and> iou_intersection pm gm im ! k / iou_union pm gm im ! k \<le> 1"
  using inter_le_union [OF assms(1-3)] assms(4) by simp

text \<open>The definitions a concrete evaluation unfolds.\<close>

lemmas eval_defs = same_shape_def nd_greater_def nd_equal_def nd_where_def zeros_like_def
  logical_or_def logical_and_def count_true_def nd_sum_def nd_mean_def np_all_zero_def
  bool_index_def np_mean_def iou_pred_mask_def union_mask_def intersection_mask_def
  iou_union_def iou_intersection_def iou_divisors_def compute_iou_def Let_def

subsection \<open>Properties of \<open>_compute_iou\<close>\<close>

text \<open>
  C4 (amended). Line 126 clears the prediction mask at every ignored position and leaves
  the ground-truth mask as it is. So an ignored position is never in the cleared prediction
  mask and never in the intersection, and it is in the union exactly when \<open>gt_mask\<close>
  is set there: where \<open>gt_mask\<close> is clear at the ignored positions they contribute to
  neither union nor intersection, and where it is set they still count for the union.
\<close>

theorem ignored_position_excluded_from_prediction:
  assumes "same_shape ignore_mask pred_mask" and "same_shape pred_mask gt_mask"
    and "k < length pred_mask" and "j < length (pred_mask ! k)"
    and "ignore_mask ! k ! j"
  shows "\<not> iou_pred_mask pred_mask ignore_mask ! k ! j
       \<and> \<not> intersection_mask pred_mask gt_mask ignore_mask ! k ! j
       \<and> union_mask pred_mask gt_mask ignore_mask ! k ! j = gt_mask ! k ! j"
proof -
  have l: "length ignore_mask = length pred_mask" "length gt_mask = length pred_mask"
    using assms(1,2) by (simp_all add: same_shape_length)
  have r: "length (ignore_mask ! k) = length (pred_mask ! k)"
          "length (gt_mask ! k) = length (pred_mask ! k)"
    using assms(1,2,3) l same_shape_nth [of ignore_mask pred_mask k]
      same_shape_nth [of pred_mask gt_mask k] by simp_all
  have "\<not> iou_pred_mask pred_mask ignore_mask ! k ! j"
    using assms(3,4,5) l r by (simp add: iou_pred_mask_eq)
  moreover have "\<not> intersection_mask pred_mask gt_mask ignore_mask ! k ! j"
    using assms(3,4,5) l r by (simp add: intersection_mask_nth)
  moreover have "union_mask pred_mask gt_mask ignore_mask ! k ! j = gt_mask ! k ! j"
    using assms(3,4,5) l r by (simp add: union_mask_nth)
  ultimately show ?thesis by simp
qed

theorem ignored_position_excluded_from_prediction_witness:
  "same_shape [[True, False]] [[True, True]] \<and> same_shape [[True, True]] [[False, True]]
   \<and> (0::nat) < length [[True, True]] \<and> (0::nat) < length ([[True, True]] ! 0)
   \<and> [[True, False]] ! 0 ! 0
   \<and> \<not> iou_pred_mask [[True, True]] [[True, False]] ! 0 ! 0
   \<and> \<not> intersection_mask [[True, True]] [[False, True]] [[True, False]] ! 0 ! 0
   \<and> union_mask [[True, True]] [[False, True]] [[True, False]] ! 0 ! 0 = [[False, True]] ! 0 ! 0"
  using ignored_position_excluded_from_prediction
    [of "[[True, False]]" "[[True, True]]" "[[False, True]]" 0 0]
  by (simp add: same_shape_def)

text \<open>
  A position can be both ignored and positive: with the ignore label \<open>255\<close>, the
  ground-truth value \<open>255\<close> sets both masks. The only position of the sample below is
  ignored, and yet the union is \<open>1\<close> and the sample is kept with overlap \<open>0\<close> instead
  of being dropped for an empty union.
\<close>

theorem ignored_positive_position_in_union:
  "nd_greater [[255]] 0 = [[True]] \<and> nd_equal [[255]] 255 = [[True]]
   \<and> [[True]] ! 0 ! 0 \<and> union_mask [[True]] [[True]] [[True]] ! 0 ! 0
   \<and> iou_union [[True]] [[True]] [[True]] = [1]
   \<and> compute_iou [[True]] [[True]] [[True]] False = Inr [0]"
  by (simp add: eval_defs)

text \<open>
  The overlap ratio itself is not monotone in the threshold: on one sample with
  predictions \<open>0.9, 0.5\<close> and ground truth set at the first position only, the ratio is
  \<open>1/2\<close> at threshold \<open>0.4\<close> and \<open>1\<close> at threshold \<open>0.6\<close>.
\<close>

theorem overlap_not_monotone:
  "(2/5 :: real) < 3/5
   \<and> compute_iou (nd_greater [[9/10, 1/2]] (2/5)) [[True, False]] [[False, False]] False = Inr [1/2]
   \<and> compute_iou (nd_greater [[9/10, 1/2]] (3/5)) [[True, False]] [[False, False]] False = Inr [1]
   \<and> \<not> (1 \<le> (1/2 :: real))"
  by (simp add: eval_defs)

text \<open>
  C5 (amended). Raising the threshold shrinks the prediction mask, so for fixed \<open>pred\<close>,
  ground-truth mask and ignore mask and all thresholds \<open>t1 < t2\<close>, the intersection and
  the union of every sample (the numerator and the denominator of its overlap ratio) at
  \<open>t2\<close> are each at most their values at \<open>t1\<close>.
\<close>

theorem intersection_union_monotone:
  assumes "t1 < t2" and "same_shape ignore_mask pred" and "same_shape pred gt_mask"
    and "k < length pred"
  shows "iou_intersection (nd_greater pred t2) gt_mask ignore_mask ! k
           \<le> iou_intersection (nd_greater pred t1) gt_mask ignore_mask ! k
       \<and> iou_union (nd_greater pred t2) gt_mask ignore_mask ! k
           \<le> iou_union (nd_greater pred t1) gt_mask ignore_mask ! k"
proof -
  have l: "length ignore_mask = length pred" "length gt_mask = length pred"
    using assms(2,3) by (simp_all add: same_shape_length)
  from assms(1) have "t1 \<le> t2" by simp
  from masks_mono [OF this assms(4) l] show ?thesis by simp
qed

theorem intersection_union_monotone_witness:
  "(2/5 :: real) < 3/5 \<and> same_shape [[False, False]] [[9/10, 1/2 :: real]]
   \<and> same_shape [[9/10, 1/2 :: real]] [[True, False]]
   \<and> (0::nat) < length [[9/10, 1/2 :: real]]
   \<and> iou_intersection (nd_greater [[9/10, 1/2]] (3/5)) [[True, False]] [[False, False]] ! 0
        \<le> iou_intersection (nd_greater [[9/10, 1/2]] (2/5)) [[True, False]] [[False, False]] ! 0
   \<and> iou_union (nd_greater [[9/10, 1/2]] (3/5)) [[True, False]] [[False, False]] ! 0
        \<le> iou_union (nd_greater [[9/10, 1/2]] (2/5)) [[True, False]] [[False, False]] ! 0"
  using intersection_union_monotone
    [of "2/5" "3/5" "[[False, False]]" "[[9/10, 1/2]]" "[[True, False]]" 0]
  by (simp add: same_shape_def)


text \<open>
  C6. Every value \<open>_compute_iou\<close> returns for a retained sample lies in \<open>[0, 1]\<close>:
  without \<open>keep_ignore\<close> these are all the values of the result; with \<open>keep_ignore\<close>
  they are the values at the samples of positive union, and the others are \<open>-1\<close>.
\<close>

theorem compute_iou_range:
  assumes "compute_iou pred_mask gt_mask ignore_mask keep_ignore = Inr r"
  shows "(\<not> keep_ignore \<longrightarrow> (\<forall>v\<in>set r. 0 \<le> v \<and> v \<le> 1))
       \<and> (keep_ignore \<longrightarrow>
            (\<forall>k<length r. if iou_union pred_mask gt_mask ignore_mask ! k > 0
                           then 0 \<le> r ! k \<and> r ! k \<le> 1 else r ! k = - 1))"
proof -
  let ?I = "iou_intersection pred_mask gt_mask ignore_mask"
  let ?U = "iou_union pred_mask gt_mask ignore_mask"
  have sh: "same_shape ignore_mask pred_mask" "same_shape pred_mask gt_mask"
    using compute_iou_Inr [OF assms] by simp_all
  have l: "length ignore_mask = length pred_mask" "length gt_mask = length pred_mask"
    using sh by (simp_all add: same_shape_length)
  have len: "length ?I = length pred_mask" "length ?U = length pred_mask"
    using mean_lengths [OF l] by simp_all
  have drop: "\<forall>v\<in>set r. 0 \<le> v \<and> v \<le> 1" if "\<not> keep_ignore"
  proof
    fix v assume "v \<in> set r"
    moreover have "r = map (\<lambda>(i, u). i / u) (filter (\<lambda>(i, u). u > 0) (zip ?I ?U))"
      using assms that compute_iou_drop [OF sh] by simp
    ultimately obtain i u where iu: "(i, u) \<in> set (zip ?I ?U)" "u > 0" "v = i / u"
      by auto
    from iu(1) obtain k where k: "k < length pred_mask" "?I ! k = i" "?U ! k = u"
      using len by (auto simp: in_set_zip)
    from ratio_range [OF k(1) l] iu(2,3) k(2,3) show "0 \<le> v \<and> v \<le> 1" by simp
  qed
  have keep: "\<forall>k<length r. if ?U ! k > 0 then 0 \<le> r ! k \<and> r ! k \<le> 1 else r ! k = - 1"
    if "keep_ignore"
  proof (intro allI impI)
    fix k assume kr: "k < length r"
    have r: "r = map (\<lambda>(i, u). if u > 0 then i / u else - 1) (zip ?I ?U)"
      using assms that compute_iou_keep [OF sh] by simp
    with kr len have k: "k < length pred_mask" by simp
    have "r ! k = (if ?U ! k > 0 then ?I ! k / ?U ! k else - 1)"
      using k len by (simp add: r)
    with ratio_range [OF k l] show "if ?U ! k > 0 then 0 \<le> r ! k \<and> r ! k \<le> 1 else r ! k = - 1"
      by simp
  qed
  from drop keep show ?thesis by blast
qed

theorem compute_iou_range_witness:
  "compute_iou [[False, False], [True, False]] [[False, False], [True, True]]
      [[False, False], [False, False]] True = Inr [- 1, 1/2]
   \<and> \<not> (0 < iou_union [[False, False], [True, False]] [[False, False], [True, True]]
      [[False, False], [False, False]] ! 0)
   \<and> 0 < iou_union [[False, False], [True, False]] [[False, False], [True, True]]
      [[False, False], [False, False]] ! 1
   \<and> (0::real) \<le> [- 1, 1/2] ! 1 \<and> [- 1, 1/2 :: real] ! 1 \<le> 1 \<and> [- 1, 1/2 :: real] ! 0 = - 1"
proof -
  have c: "compute_iou [[False, False], [True, False]] [[False, False], [True, True]]
      [[False, False], [False, False]] True = Inr [- 1, 1/2]"
    by (simp add: eval_defs)
  have u: "iou_union [[False, False], [True, False]] [[False, False], [True, True]]
      [[False, False], [False, False]] = [0, 1]"
    by (simp add: eval_defs)
  from compute_iou_range [OF c] show ?thesis using c u by simp
qed

text \<open>
  C7. On arrays of one shape, without \<open>keep_ignore\<close> the result is the list of the ratios
  \<open>intersection/union\<close> of exactly the samples with \<open>union > 0\<close>, in order (the others
  are dropped, which shortens it); with \<open>keep_ignore\<close> it has one entry per sample, the
  ratio where \<open>union > 0\<close> and \<open>-1\<close> elsewhere; and every divisor is positive.
\<close>

theorem zero_union_samples_dropped:
  assumes "same_shape ignore_mask pred_mask" and "same_shape pred_mask gt_mask"
  shows "compute_iou pred_mask gt_mask ignore_mask False =
           Inr (map (\<lambda>(i, u). i / u) (filter (\<lambda>(i, u). u > 0)
                  (zip (iou_intersection pred_mask gt_mask ignore_mask)
                       (iou_union pred_mask gt_mask ignore_mask))))
       \<and> compute_iou pred_mask gt_mask ignore_mask True =
           Inr (map (\<lambda>(i, u). if u > 0 then i / u else - 1)
                  (zip (iou_intersection pred_mask gt_mask ignore_mask)
                       (iou_union pred_mask gt_mask ignore_mask)))
       \<and> length (zip (iou_intersection pred_mask gt_mask ignore_mask)
                     (iou_union pred_mask gt_mask ignore_mask)) = length pred_mask
       \<and> list_all (\<lambda>d. d > 0) (iou_divisors pred_mask gt_mask ignore_mask)"
proof -
  have l: "length ignore_mask = length pred_mask" "length gt_mask = length pred_mask"
    using assms by (simp_all add: same_shape_length)
  have "list_all (\<lambda>d. d > 0) (iou_divisors pred_mask gt_mask ignore_mask)"
    by (simp add: list_all_iff divisors_pos)
  then show ?thesis
    using compute_iou_drop [OF assms] compute_iou_keep [OF assms] mean_lengths [OF l]
    by simp
qed

theorem zero_union_samples_dropped_witness:
  "same_shape [[False, False], [False, False]] [[False, False], [True, False]]
   \<and> same_shape [[False, False], [True, False]] [[False, False], [True, True]]
   \<and> compute_iou [[False, False], [True, False]] [[False, False], [True, True]]
        [[False, False], [False, False]] False = Inr [1/2]
   \<and> compute_iou [[False, False], [True, False]] [[False, False], [True, True]]
        [[False, False], [False, False]] True = Inr [- 1, 1/2]
   \<and> iou_divisors [[False, False], [True, False]] [[False, False], [True, True]]
        [[False, False], [False, False]] = [1]"
proof -
  have s: "same_shape [[False, False], [False, False]] [[False, False], [True, False]]"
          "same_shape [[False, False], [True, False]] [[False, False], [True, True]]"
    by (simp_all add: same_shape_def)
  have i: "iou_intersection [[False, False], [True, False]] [[False, False], [True, True]]
        [[False, False], [False, False]] = [0, 1/2]"
    by (simp add: eval_defs)
  have u: "iou_union [[False, False], [True, False]] [[False, False], [True, True]]
        [[False, False], [False, False]] = [0, 1]"
    by (simp add: eval_defs)
  have d: "iou_divisors [[False, False], [True, False]] [[False, False], [True, True]]
        [[False, False], [False, False]] = [1]"
    unfolding iou_divisors_def u by (simp add: bool_index_def)
  from zero_union_samples_dropped [OF s] show ?thesis using s d by (simp add: i u)
qed

subsection \<open>Facts about the threshold search\<close>

lemma iou_values_unit:
  assumes "compute_iou pm gm im False = Inr r" and "v \<in> set r"
  shows "0 \<le> v \<and> v \<le> 1"
proof -
  let ?I = "iou_intersection pm gm im"
  let ?U = "iou_union pm gm im"
  have sh: "same_shape im pm" "same_shape pm gm"
    using compute_iou_Inr [OF assms(1)] by simp_all
  have l: "length im = length pm" "length gm = length pm"
    using sh by (simp_all add: same_shape_length)
  have len: "length ?I = length pm" "length ?U = length pm"
    using mean_lengths [OF l] by simp_all
  have "r = map (\<lambda>(i, u). i / u) (filter (\<lambda>(i, u). u > 0) (zip ?I ?U))"
    using assms(1) compute_iou_drop [OF sh] by simp
  with assms(2) obtain i u where iu: "(i, u) \<in> set (zip ?I ?U)" "u > 0" "v = i / u"
    by auto
  from iu(1) obtain k where k: "k < length pm" "?I ! k = i" "?U ! k = u"
    using len by (auto simp: in_set_zip)
  from ratio_range [OF k(1) l] iu(2,3) k(2,3) show ?thesis by simp
qed

lemma count_or_ge: "length a = length g \<Longrightarrow> count_true g \<le> count_true (map2 (\<or>) a g)"
  unfolding count_true_def by (induction a g rule: list_induct2) auto

lemma count_true_pos_length: "0 < count_true g \<Longrightarrow> 0 < length g"
  unfolding count_true_def by (cases g) auto

lemma gt_positive_union:
  assumes "same_shape im pm" "same_shape pm gm" "k < length pm" "0 < count_true (gm ! k)"
  shows "0 < iou_union pm gm im ! k"
proof -
  have l: "length im = length pm" "length gm = length pm"
    using assms(1,2) by (simp_all add: same_shape_length)
  have r: "length (im ! k) = length (pm ! k)" "length (gm ! k) = length (pm ! k)"
    using assms(1,2,3) l same_shape_nth [of im pm k] same_shape_nth [of pm gm k] by simp_all
  let ?a = "map2 (\<lambda>ce ye. \<not> ce \<and> ye) (im ! k) (pm ! k)"
  have la: "length ?a = length (gm ! k)" using r by simp
  have "0 < count_true (map2 (\<or>) ?a (gm ! k))"
    using count_or_ge [OF la] assms(4) by simp
  moreover have "0 < length (map2 (\<or>) ?a (gm ! k))"
    using la count_true_pos_length [OF assms(4)] by simp
  ultimately show ?thesis
    using assms(3) l by (simp add: iou_union_nth union_mask_nth)
qed

lemma guard_sample:
  "\<not> np_all_zero (nd_sum gm) \<Longrightarrow> \<exists>k<length gm. 0 < count_true (gm ! k)"
  by (auto simp: np_all_zero_def nd_sum_def list_all_iff in_set_conv_nth)

lemma guard_nonempty:
  assumes "\<not> np_all_zero (nd_sum gm)" "same_shape im pm" "same_shape pm gm"
  shows "\<exists>r. compute_iou pm gm im False = Inr r \<and> r \<noteq> []"
proof -
  let ?I = "iou_intersection pm gm im"
  let ?U = "iou_union pm gm im"
  have l: "length im = length pm" "length gm = length pm"
    using assms(2,3) by (simp_all add: same_shape_length)
  have len: "length ?I = length pm" "length ?U = length pm"
    using mean_lengths [OF l] by simp_all
  from guard_sample [OF assms(1)] obtain k where k: "k < length pm" "0 < count_true (gm ! k)"
    using l by auto
  have "0 < ?U ! k" by (rule gt_positive_union [OF assms(2,3) k])
  moreover have "(?I ! k, ?U ! k) \<in> set (zip ?I ?U)"
    using k(1) len by (auto simp: in_set_zip)
  ultimately have "filter (\<lambda>(i, u). u > 0) (zip ?I ?U) \<noteq> []"
    by (auto simp: filter_empty_conv)
  then show ?thesis using compute_iou_drop [OF assms(2,3)] by simp
qed

lemma sum_list_unit:
  "(\<forall>v\<in>set r. 0 \<le> v \<and> v \<le> (1::real)) \<Longrightarrow> 0 \<le> sum_list r \<and> sum_list r \<le> real (length r)"
  by (induction r) auto

lemma np_mean_unit:
  assumes "np_mean r = Inr m" "\<forall>v\<in>set r. 0 \<le> v \<and> v \<le> 1"
  shows "0 \<le> m \<and> m \<le> 1"
proof -
  from assms(1) have ne: "r \<noteq> []" and m: "m = sum_list r / real (length r)"
    by (auto simp: np_mean_def split: if_splits)
  from ne have "0 < real (length r)" by simp
  with sum_list_unit [OF assms(2)] show ?thesis unfolding m by (simp add: divide_le_eq)
qed

lemma candidate_iou_unit:
  assumes "candidate_iou pred gm im t = Inr m"
  shows "0 \<le> m \<and> m \<le> 1"
proof -
  from assms obtain r where r: "compute_iou (nd_greater pred t) gm im False = Inr r"
    and m: "np_mean r = Inr m"
    by (auto simp: candidate_iou_def split: sum.splits)
  from np_mean_unit [OF m] iou_values_unit [OF r] show ?thesis by blast
qed

lemma candidate_iou_defined:
  assumes "\<not> np_all_zero (nd_sum gm)" "same_shape im pred" "same_shape pred gm"
  shows "\<exists>m. candidate_iou pred gm im t = Inr m"
proof -
  from guard_nonempty [OF assms(1), of im "nd_greater pred t"] assms(2,3)
  obtain r where "compute_iou (nd_greater pred t) gm im False = Inr r" "r \<noteq> []"
    by (auto simp: nd_greater_shape)
  then show ?thesis by (simp add: candidate_iou_def np_mean_def)
qed

lemma candidate_iou_shape:
  "candidate_iou pred gm im t = Inr m \<Longrightarrow> same_shape im pred \<and> same_shape pred gm"
  by (auto simp: candidate_iou_def nd_greater_shape split: sum.splits dest!: compute_iou_Inr)

lemma search_loop_two:
  assumes "candidate_iou pred gm im a = Inr m1" "candidate_iou pred gm im b = Inr m2"
  shows "search_loop pred gm im [a, b] (m0, t) =
     Inr (if m1 \<le> m0 \<and> m2 \<le> m0 then (m0, t) else if m2 \<le> m1 then (m1, a) else (m2, b))"
  using assms by auto

lemma search_loop_Inr:
  assumes "search_loop pred gm im [a, b] (m0, t) = Inr res"
  shows "\<exists>m1 m2. candidate_iou pred gm im a = Inr m1 \<and> candidate_iou pred gm im b = Inr m2"
  using assms by (auto split: sum.splits if_splits)


lemma same_shape_masks:
  "same_shape (nd_equal gt c) b = same_shape gt b"
  "same_shape b (nd_greater gt c) = same_shape b gt"
  "same_shape (nd_sigmoid a) b = same_shape a b"
  "same_shape b (nd_sigmoid a) = same_shape b a"
  by (simp_all add: same_shape_def nd_equal_def nd_greater_def nd_sigmoid_def comp_def)

lemma same_shape_sym: "same_shape a b \<Longrightarrow> same_shape b a"
  by (simp add: same_shape_def)

lemma update_guard: "np_all_zero (nd_sum (nd_greater gt 0)) \<Longrightarrow> update self pred0 gt = Inr self"
  by (simp add: update_def)

lemma update_search:
  assumes "\<not> np_all_zero (nd_sum (nd_greater gt 0))"
    and "update self pred0 gt = Inr self'"
  shows "\<exists>m0 m1 m2 max_iou best_thresh.
      candidate_iou (effective_pred (from_logits self) pred0) (nd_greater gt 0)
        (nd_equal gt (ignore_label self)) (iou_thresh self) = Inr m0
    \<and> candidate_iou (effective_pred (from_logits self) pred0) (nd_greater gt 0)
        (nd_equal gt (ignore_label self)) (iou_thresh self - thresh_step self) = Inr m1
    \<and> candidate_iou (effective_pred (from_logits self) pred0) (nd_greater gt 0)
        (nd_equal gt (ignore_label self)) (iou_thresh self + thresh_step self) = Inr m2
    \<and> (max_iou, best_thresh) =
        (if m1 \<le> m0 \<and> m2 \<le> m0 then (m0, iou_thresh self)
         else if m2 \<le> m1 then (m1, iou_thresh self - thresh_step self)
         else (m2, iou_thresh self + thresh_step self))
    \<and> self' = self\<lparr> iou_thresh := thresh_beta self * iou_thresh self
                                   + (1 - thresh_beta self) * best_thresh,
                      ema_iou := iou_beta self * ema_iou self + (1 - iou_beta self) * max_iou,
                      epoch_iou_sum := epoch_iou_sum self + max_iou,
                      epoch_batch_count := epoch_batch_count self + 1 \<rparr>"
proof -
  let ?P = "effective_pred (from_logits self) pred0"
  let ?gm = "nd_greater gt 0"
  let ?im = "nd_equal gt (ignore_label self)"
  let ?t = "iou_thresh self"
  let ?s = "thresh_step self"
  from assms obtain m0 where m0: "candidate_iou ?P ?gm ?im ?t = Inr m0"
    by (auto simp: update_def effective_pred_def Let_def split: sum.splits)
  from assms m0 obtain res where
    res: "search_loop ?P ?gm ?im [?t - ?s, ?t + ?s] (m0, ?t) = Inr res"
    by (auto simp: update_def effective_pred_def Let_def split: sum.splits)
  from search_loop_Inr [OF res] obtain m1 m2 where
    m1: "candidate_iou ?P ?gm ?im (?t - ?s) = Inr m1" and
    m2: "candidate_iou ?P ?gm ?im (?t + ?s) = Inr m2" by blast
  obtain max_iou best_thresh where mb: "res = (max_iou, best_thresh)" by (cases res)
  have sel: "(max_iou, best_thresh) =
        (if m1 \<le> m0 \<and> m2 \<le> m0 then (m0, ?t)
         else if m2 \<le> m1 then (m1, ?t - ?s) else (m2, ?t + ?s))"
    using res search_loop_two [OF m1 m2, of m0 ?t] unfolding mb by simp
  have "update self pred0 gt = Inr (self\<lparr> iou_thresh := thresh_beta self * iou_thresh self
                                   + (1 - thresh_beta self) * best_thresh,
                      ema_iou := iou_beta self * ema_iou self + (1 - iou_beta self) * max_iou,
                      epoch_iou_sum := epoch_iou_sum self + max_iou,
                      epoch_batch_count := epoch_batch_count self + 1 \<rparr>)"
    using assms(1) m0 res unfolding mb update_def effective_pred_def Let_def
    by (simp split: sum.splits)
  with assms(2) have "self' = self\<lparr> iou_thresh := thresh_beta self * iou_thresh self
                                   + (1 - thresh_beta self) * best_thresh,
                      ema_iou := iou_beta self * ema_iou self + (1 - iou_beta self) * max_iou,
                      epoch_iou_sum := epoch_iou_sum self + max_iou,
                      epoch_batch_count := epoch_batch_count self + 1 \<rparr>" by simp
  with m0 m1 m2 sel show ?thesis by blast
qed

lemma update_defined:
  assumes "same_shape pred0 gt"
  shows "\<exists>self'. update self pred0 gt = Inr self'"
proof (cases "np_all_zero (nd_sum (nd_greater gt 0))")
  case True
  then show ?thesis by (simp add: update_guard)
next
  case False
  let ?P = "effective_pred (from_logits self) pred0"
  let ?gm = "nd_greater gt 0"
  let ?im = "nd_equal gt (ignore_label self)"
  have sh: "same_shape ?im ?P" "same_shape ?P ?gm"
    using assms same_shape_sym [OF assms] by (simp_all add: effective_pred_def same_shape_masks)
  from candidate_iou_defined [OF False sh] obtain m0 m1 m2 where
    m: "candidate_iou ?P ?gm ?im (iou_thresh self) = Inr m0"
       "candidate_iou ?P ?gm ?im (iou_thresh self - thresh_step self) = Inr m1"
       "candidate_iou ?P ?gm ?im (iou_thresh self + thresh_step self) = Inr m2"
    by metis
  show ?thesis
    using False m(1) search_loop_two [OF m(2,3), of m0 "iou_thresh self"]
    unfolding update_def effective_pred_def Let_def
    by (simp split: sum.splits)
qed


lemma no_positive_guard:
  "(\<forall>row\<in>set gt. \<forall>v\<in>set row. \<not> 0 < v) \<Longrightarrow> np_all_zero (nd_sum (nd_greater gt 0))"
  by (auto simp: np_all_zero_def nd_sum_def nd_greater_def count_true_def list_all_iff
      filter_empty_conv)

lemma auc_update_guard:
  "np_all_zero (nd_sum (nd_greater gt 0)) \<Longrightarrow> auc_update pr_auc self pred0 gt = Inr self"
  by (simp add: auc_update_def)

lemmas update_eval = update_def candidate_iou_def effective_pred_def init_AdaptiveIoU_def

subsection \<open>Properties of \<open>update\<close>\<close>

text \<open>
  C3. On a batch whose ground truth is positive nowhere (\<open>gt > 0\<close> at no position of any
  sample), \<open>update\<close> of both metrics returns at the guard of lines 49 and 102 with the
  state it was given: threshold, score average, epoch sum and epoch count are unchanged,
  whatever the predictions are.
\<close>

theorem no_positive_pixels_no_update:
  assumes "\<forall>row\<in>set gt. \<forall>v\<in>set row. \<not> 0 < v"
  shows "update self pred gt = Inr self \<and> auc_update pr_auc self' pred gt = Inr self'"
  using no_positive_guard [OF assms] by (simp add: update_guard auc_update_guard)

theorem no_positive_pixels_no_update_witness:
  "nd_greater [[- 1, - 1], [0, - 1]] 0 = [[False, False], [False, False]]
   \<and> update (init_AdaptiveIoU (2/5) (1/40) (99/100) (9/10) (- 1) True ''instances'' ''instances'')
        [[3, - 2], [1/2, 0]] [[- 1, - 1], [0, - 1]]
      = Inr (init_AdaptiveIoU (2/5) (1/40) (99/100) (9/10) (- 1) True ''instances'' ''instances'')
   \<and> auc_update (\<lambda>g p. 1)
        \<lparr> auc_pred_outputs = [''instances''], auc_gt_outputs = [''instances''],
          auc_ignore_label = - 1, auc_from_logits = True, beta = 9/10, ema_auc = 0,
          epoch_auc_sum = 0, auc_epoch_batch_count = 0 \<rparr>
        [[3, - 2], [1/2, 0]] [[- 1, - 1], [0, - 1]]
      = Inr \<lparr> auc_pred_outputs = [''instances''], auc_gt_outputs = [''instances''],
          auc_ignore_label = - 1, auc_from_logits = True, beta = 9/10, ema_auc = 0,
          epoch_auc_sum = 0, auc_epoch_batch_count = 0 \<rparr>"
proof -
  have h: "\<forall>row\<in>set [[- 1, - 1], [0, - 1 :: real]]. \<forall>v\<in>set row. \<not> 0 < v" by simp
  from no_positive_pixels_no_update [OF h] show ?thesis by (simp add: nd_greater_def)
qed

lemma candidate_iou_mean:
  assumes "candidate_iou P gm im c = Inr m"
  shows "\<exists>r. compute_iou (map (map (\<lambda>x. x > c)) P) gm im False = Inr r \<and> r \<noteq> []
             \<and> m = sum_list r / real (length r)"
  using assms
  by (auto simp: candidate_iou_def nd_greater_def np_mean_def split: sum.splits if_splits)

text \<open>
  C1. Every call of \<open>AdaptiveIoU.update\<close> that passes the guard and returns has
  evaluated \<open>_compute_iou\<close> on the mask \<open>pred > c\<close>, the mask \<open>gt > 0\<close> and the mask
  \<open>gt == ignore_label\<close> at the three candidates \<open>c\<close>: the threshold at entry, that
  threshold minus the step and that threshold plus the step. Each of the three results is
  reduced to its mean (the sum of the per-sample values over their number). The best score
  is the largest of the three means; the best threshold is the unperturbed one unless a
  perturbed candidate is strictly better (the lower one first), and the state is updated
  from that pair.
\<close>

theorem threshold_search_selects_best:
  assumes "\<not> np_all_zero (nd_sum (nd_greater gt 0))"
    and "update self pred gt = Inr self'"
  shows "let P = (if from_logits self then nd_sigmoid pred else pred);
             gt_mask = map (map (\<lambda>x. x > 0)) gt;
             ignore_mask = map (map (\<lambda>x. x = ignore_label self)) gt;
             t = iou_thresh self;
             s = thresh_step self;
             mean = (\<lambda>r. sum_list r / real (length r))
         in \<exists>r0 r1 r2 bestScore bestThreshold.
              compute_iou (map (map (\<lambda>x. x > t)) P) gt_mask ignore_mask False = Inr r0
            \<and> compute_iou (map (map (\<lambda>x. x > t - s)) P) gt_mask ignore_mask False = Inr r1
            \<and> compute_iou (map (map (\<lambda>x. x > t + s)) P) gt_mask ignore_mask False = Inr r2
            \<and> r0 \<noteq> [] \<and> r1 \<noteq> [] \<and> r2 \<noteq> []
            \<and> bestScore = max (mean r0) (max (mean r1) (mean r2))
            \<and> (bestScore, bestThreshold) =
                 (if mean r1 \<le> mean r0 \<and> mean r2 \<le> mean r0 then (mean r0, t)
                  else if mean r2 \<le> mean r1 then (mean r1, t - s)
                  else (mean r2, t + s))
            \<and> self' = self\<lparr> iou_thresh := thresh_beta self * t
                                           + (1 - thresh_beta self) * bestThreshold,
                              ema_iou := iou_beta self * ema_iou self
                                           + (1 - iou_beta self) * bestScore,
                              epoch_iou_sum := epoch_iou_sum self + bestScore,
                              epoch_batch_count := epoch_batch_count self + 1 \<rparr>"
proof -
  let ?P = "if from_logits self then nd_sigmoid pred else pred"
  let ?gm = "map (map (\<lambda>x. x > 0)) gt"
  let ?im = "map (map (\<lambda>x. x = ignore_label self)) gt"
  let ?t = "iou_thresh self"
  let ?s = "thresh_step self"
  have e: "effective_pred (from_logits self) pred = ?P" "nd_greater gt 0 = ?gm"
    "nd_equal gt (ignore_label self) = ?im"
    by (simp_all add: effective_pred_def nd_greater_def nd_equal_def)
  from update_search [OF assms] obtain m0 m1 m2 max_iou best_thresh where
    c: "candidate_iou ?P ?gm ?im ?t = Inr m0"
       "candidate_iou ?P ?gm ?im (?t - ?s) = Inr m1"
       "candidate_iou ?P ?gm ?im (?t + ?s) = Inr m2"
    and sel: "(max_iou, best_thresh) =
        (if m1 \<le> m0 \<and> m2 \<le> m0 then (m0, ?t)
         else if m2 \<le> m1 then (m1, ?t - ?s) else (m2, ?t + ?s))"
    and s: "self' = self\<lparr> iou_thresh := thresh_beta self * ?t
                                   + (1 - thresh_beta self) * best_thresh,
                      ema_iou := iou_beta self * ema_iou self + (1 - iou_beta self) * max_iou,
                      epoch_iou_sum := epoch_iou_sum self + max_iou,
                      epoch_batch_count := epoch_batch_count self + 1 \<rparr>"
    unfolding e by blast
  from candidate_iou_mean [OF c(1)] obtain r0 where
    r0: "compute_iou (map (map (\<lambda>x. x > ?t)) ?P) ?gm ?im False = Inr r0" "r0 \<noteq> []"
      "m0 = sum_list r0 / real (length r0)" by blast
  from candidate_iou_mean [OF c(2)] obtain r1 where
    r1: "compute_iou (map (map (\<lambda>x. x > ?t - ?s)) ?P) ?gm ?im False = Inr r1" "r1 \<noteq> []"
      "m1 = sum_list r1 / real (length r1)" by blast
  from candidate_iou_mean [OF c(3)] obtain r2 where
    r2: "compute_iou (map (map (\<lambda>x. x > ?t + ?s)) ?P) ?gm ?im False = Inr r2" "r2 \<noteq> []"
      "m2 = sum_list r2 / real (length r2)" by blast
  from sel have mx: "max_iou = max m0 (max m1 m2)" by (auto split: if_splits)
  show ?thesis
    unfolding Let_def
    using r0(1,2) r1(1,2) r2(1,2) mx sel s
    unfolding r0(3) r1(3) r2(3) by blast
qed

lemma scenario_move:
  "update (init_AdaptiveIoU (2/5) (1/40) (99/100) (9/10) (- 1) False ''instances'' ''instances'')
        [[39/100, 1/10]] [[1, 0]]
   = Inr ((init_AdaptiveIoU (2/5) (1/40) (99/100) (9/10) (- 1) False ''instances'' ''instances'')
        \<lparr> iou_thresh := 1599/4000, ema_iou := 1/10, epoch_iou_sum := 1,
          epoch_batch_count := 1 \<rparr>)"
  by (simp add: update_eval eval_defs)

lemma scenario_guard: "\<not> np_all_zero (nd_sum (nd_greater [[1, 0]] 0))"
  by (simp add: eval_defs)

theorem threshold_search_selects_best_witness:
  "\<not> np_all_zero (nd_sum (nd_greater [[1, 0]] 0))
   \<and> update (init_AdaptiveIoU (2/5) (1/40) (99/100) (9/10) (- 1) False ''instances'' ''instances'')
        [[39/100, 1/10]] [[1, 0]]
      = Inr ((init_AdaptiveIoU (2/5) (1/40) (99/100) (9/10) (- 1) False ''instances'' ''instances'')
        \<lparr> iou_thresh := 1599/4000, ema_iou := 1/10, epoch_iou_sum := 1,
          epoch_batch_count := 1 \<rparr>)
   \<and> compute_iou (map (map (\<lambda>x. x > 2/5)) [[39/100, 1/10 :: real]]) (map (map (\<lambda>x. x > 0)) [[1, 0 :: real]])
        (map (map (\<lambda>x. x = - 1)) [[1, 0 :: real]]) False = Inr [0]
   \<and> compute_iou (map (map (\<lambda>x. x > 2/5 - 1/40)) [[39/100, 1/10 :: real]])
        (map (map (\<lambda>x. x > 0)) [[1, 0 :: real]]) (map (map (\<lambda>x. x = - 1)) [[1, 0 :: real]]) False = Inr [1]
   \<and> compute_iou (map (map (\<lambda>x. x > 2/5 + 1/40)) [[39/100, 1/10 :: real]])
        (map (map (\<lambda>x. x > 0)) [[1, 0 :: real]]) (map (map (\<lambda>x. x = - 1)) [[1, 0 :: real]]) False = Inr [0]
   \<and> (\<exists>bestScore bestThreshold.
        bestScore = max (sum_list [0] / real (length [0 :: real]))
                      (max (sum_list [1] / real (length [1 :: real]))
                           (sum_list [0] / real (length [0 :: real])))
      \<and> (bestScore, bestThreshold) = (1, 2/5 - 1/40)
      \<and> (init_AdaptiveIoU (2/5) (1/40) (99/100) (9/10) (- 1) False ''instances'' ''instances'')
          \<lparr> iou_thresh := 1599/4000, ema_iou := 1/10, epoch_iou_sum := 1,
            epoch_batch_count := 1 \<rparr>
        = (init_AdaptiveIoU (2/5) (1/40) (99/100) (9/10) (- 1) False ''instances'' ''instances'')
          \<lparr> iou_thresh := 99/100 * (2/5) + (1 - 99/100) * bestThreshold,
            ema_iou := 9/10 * 0 + (1 - 9/10) * bestScore,
            epoch_iou_sum := 0 + bestScore, epoch_batch_count := 0 + 1 \<rparr>)"
proof -
  have c: "compute_iou (map (map (\<lambda>x. x > 2/5)) [[39/100, 1/10 :: real]]) (map (map (\<lambda>x. x > 0)) [[1, 0 :: real]])
        (map (map (\<lambda>x. x = - 1)) [[1, 0 :: real]]) False = Inr [0]"
    "compute_iou (map (map (\<lambda>x. x > 2/5 - 1/40)) [[39/100, 1/10 :: real]])
        (map (map (\<lambda>x. x > 0)) [[1, 0 :: real]]) (map (map (\<lambda>x. x = - 1)) [[1, 0 :: real]]) False = Inr [1]"
    "compute_iou (map (map (\<lambda>x. x > 2/5 + 1/40)) [[39/100, 1/10 :: real]])
        (map (map (\<lambda>x. x > 0)) [[1, 0 :: real]]) (map (map (\<lambda>x. x = - 1)) [[1, 0 :: real]]) False = Inr [0]"
    by (simp_all add: eval_defs)
  from threshold_search_selects_best [OF scenario_guard scenario_move] c scenario_guard
    scenario_move
  show ?thesis by (simp add: init_AdaptiveIoU_def Let_def)
qed

text \<open>
  C2. After one \<open>update\<close> call the threshold has moved by at most
  \<open>(1 - thresh_beta) * thresh_step\<close>, for a decay rate of at most one and a step size
  that is not negative (the ranges the specification gives the two constants).
\<close>

theorem threshold_step_bound:
  assumes "update self pred gt = Inr self'"
    and "thresh_beta self \<le> 1" and "0 \<le> thresh_step self"
  shows "\<bar>iou_thresh self' - iou_thresh self\<bar> \<le> (1 - thresh_beta self) * thresh_step self"
proof (cases "np_all_zero (nd_sum (nd_greater gt 0))")
  case True
  with assms(1) have "self' = self" by (simp add: update_guard)
  with assms(2,3) show ?thesis by simp
next
  case False
  from update_search [OF False assms(1)] obtain m0 m1 m2 max_iou best_thresh where
    sel: "(max_iou, best_thresh) =
        (if m1 \<le> m0 \<and> m2 \<le> m0 then (m0, iou_thresh self)
         else if m2 \<le> m1 then (m1, iou_thresh self - thresh_step self)
         else (m2, iou_thresh self + thresh_step self))"
    and s: "self' = self\<lparr> iou_thresh := thresh_beta self * iou_thresh self
                                   + (1 - thresh_beta self) * best_thresh,
                      ema_iou := iou_beta self * ema_iou self + (1 - iou_beta self) * max_iou,
                      epoch_iou_sum := epoch_iou_sum self + max_iou,
                      epoch_batch_count := epoch_batch_count self + 1 \<rparr>"
    by blast
  from sel have b: "best_thresh = iou_thresh self
        \<or> best_thresh = iou_thresh self - thresh_step self
        \<or> best_thresh = iou_thresh self + thresh_step self"
    by (auto split: if_splits)
  from s have t: "iou_thresh self' = thresh_beta self * iou_thresh self
                                   + (1 - thresh_beta self) * best_thresh"
    by simp
  have "iou_thresh self' - iou_thresh self = (1 - thresh_beta self) * (best_thresh - iou_thresh self)"
    unfolding t by (simp add: algebra_simps)
  moreover have "\<bar>best_thresh - iou_thresh self\<bar> \<le> thresh_step self"
    using b assms(3) by auto
  ultimately show ?thesis
    using assms(2) by (simp add: abs_mult mult_left_mono)
qed

theorem threshold_step_bound_witness:
  "update (init_AdaptiveIoU (2/5) (1/40) (99/100) (9/10) (- 1) False ''instances'' ''instances'')
        [[39/100, 1/10]] [[1, 0]]
   = Inr ((init_AdaptiveIoU (2/5) (1/40) (99/100) (9/10) (- 1) False ''instances'' ''instances'')
        \<lparr> iou_thresh := 1599/4000, ema_iou := 1/10, epoch_iou_sum := 1,
          epoch_batch_count := 1 \<rparr>)
   \<and> (99/100 :: real) \<le> 1 \<and> (0::real) \<le> 1/40
   \<and> \<bar>1599/4000 - 2/5 :: real\<bar> \<le> (1 - 99/100) * (1/40)"
  using threshold_step_bound [OF scenario_move] scenario_move
  by (simp add: init_AdaptiveIoU_def)

text \<open>
  C10. When \<open>AdaptiveIoU.update\<close> passes the guard (some sample has a positive
  ground-truth position) on arrays of one shape, the array \<open>_compute_iou\<close> returns is
  not empty at any candidate threshold \<open>t\<close>, so its mean is defined: a sample with a
  positive ground-truth position has \<open>union > 0\<close> whatever the prediction mask is. The
  call then returns a state.
\<close>

theorem search_means_defined:
  assumes "\<not> np_all_zero (nd_sum (nd_greater gt 0))" and "same_shape pred gt"
  shows "(\<exists>r. compute_iou (nd_greater (effective_pred (from_logits self) pred) t)
                (nd_greater gt 0) (nd_equal gt (ignore_label self)) False = Inr r \<and> r \<noteq> [])
       \<and> (\<exists>m. candidate_iou (effective_pred (from_logits self) pred) (nd_greater gt 0)
                (nd_equal gt (ignore_label self)) t = Inr m)
       \<and> (same_shape pred_mask gt \<and> k < length gt \<and> 0 < count_true (nd_greater gt 0 ! k)
            \<longrightarrow> 0 < iou_union pred_mask (nd_greater gt 0) (nd_equal gt (ignore_label self)) ! k)
       \<and> (\<exists>self'. update self pred gt = Inr self')"
proof -
  let ?P = "effective_pred (from_logits self) pred"
  let ?gm = "nd_greater gt 0"
  let ?im = "nd_equal gt (ignore_label self)"
  have sh: "same_shape ?im ?P" "same_shape ?P ?gm"
    using assms(2) same_shape_sym [OF assms(2)]
    by (simp_all add: effective_pred_def same_shape_masks)
  have sht: "same_shape ?im (nd_greater ?P t)" "same_shape (nd_greater ?P t) ?gm"
    using sh by (simp_all add: nd_greater_shape)
  have a: "\<exists>r. compute_iou (nd_greater ?P t) ?gm ?im False = Inr r \<and> r \<noteq> []"
    by (rule guard_nonempty [OF assms(1) sht])
  have b: "\<exists>m. candidate_iou ?P ?gm ?im t = Inr m"
    by (rule candidate_iou_defined [OF assms(1) sh])
  have c: "0 < iou_union pred_mask ?gm ?im ! k"
    if "same_shape pred_mask gt" "k < length gt" "0 < count_true (?gm ! k)"
  proof -
    have s: "same_shape ?im pred_mask" "same_shape pred_mask ?gm"
      using that(1) same_shape_sym [OF that(1)] by (simp_all add: same_shape_masks)
    have "k < length pred_mask" using that(1,2) by (simp add: same_shape_length)
    from gt_positive_union [OF s this that(3)] show ?thesis .
  qed
  from a b c update_defined [OF assms(2), of self] show ?thesis by blast
qed

theorem search_means_defined_witness:
  "\<not> np_all_zero (nd_sum (nd_greater [[1, 0]] 0)) \<and> same_shape [[39/100, 1/10 :: real]] [[1, 0 :: real]]
   \<and> compute_iou (nd_greater [[39/100, 1/10]] (2/5)) (nd_greater [[1, 0]] 0)
        (nd_equal [[1, 0]] (- 1)) False = Inr [0]
   \<and> candidate_iou [[39/100, 1/10]] (nd_greater [[1, 0]] 0) (nd_equal [[1, 0]] (- 1)) (2/5) = Inr 0
   \<and> 0 < iou_union [[False, False]] (nd_greater [[1, 0]] 0) (nd_equal [[1, 0]] (- 1)) ! 0
   \<and> (\<exists>self'. update
          (init_AdaptiveIoU (2/5) (1/40) (99/100) (9/10) (- 1) False ''instances'' ''instances'')
          [[39/100, 1/10]] [[1, 0]] = Inr self')"
proof -
  have s: "same_shape [[39/100, 1/10 :: real]] [[1, 0 :: real]]" by (simp add: same_shape_def)
  have c: "compute_iou (nd_greater [[39/100, 1/10]] (2/5)) (nd_greater [[1, 0]] 0)
        (nd_equal [[1, 0]] (- 1)) False = Inr [0]"
    by (simp add: eval_defs)
  have u: "0 < iou_union [[False, False]] (nd_greater [[1, 0]] 0) (nd_equal [[1, 0]] (- 1)) ! 0"
    by (simp add: eval_defs)
  from search_means_defined [OF scenario_guard s,
      of "init_AdaptiveIoU (2/5) (1/40) (99/100) (9/10) (- 1) False ''instances'' ''instances''"
         "2/5" "[[False, False]]" 0]
  show ?thesis using scenario_guard s c u
    by (simp add: init_AdaptiveIoU_def effective_pred_def candidate_iou_def np_mean_def)
qed

lemma auc_loop_empty:
  "length ps = length gs \<Longrightarrow> auc_loop f ps gs = [] \<Longrightarrow> list_all (\<lambda>g. count_true g = 0) gs"
  by (induction ps gs rule: list_induct2) (auto split: if_splits)

lemma nd_where_length:
  "length (nd_where c x y) = min (length c) (min (length x) (length y))"
  by (simp add: nd_where_def)

lemma compute_auc_empty:
  assumes "compute_auc f pred gm im = Inr []"
  shows "np_all_zero (nd_sum gm)"
proof -
  from assms have sh: "same_shape im pred" "same_shape pred gm"
    and e: "auc_loop f (nd_where im (zeros_like 0 pred) pred) gm = []"
    by (auto simp: compute_auc_def split: if_splits)
  have "length (nd_where im (zeros_like 0 pred) pred) = length gm"
    using same_shape_length [OF sh(1)] same_shape_length [OF sh(2)]
    by (simp add: nd_where_length zeros_like_def)
  from auc_loop_empty [OF this e] show ?thesis
    by (simp add: np_all_zero_def nd_sum_def list_all_iff)
qed

lemma compute_auc_error: "compute_auc f pred gm im = Inl e \<Longrightarrow> e = ShapeMismatch"
  by (auto simp: compute_auc_def split: if_splits)

lemma auc_update_no_nan: "auc_update f self pred gt \<noteq> Inl UndefinedMean"
proof (cases "np_all_zero (nd_sum (nd_greater gt 0))")
  case True
  then show ?thesis by (simp add: auc_update_guard)
next
  case False
  let ?c = "compute_auc f (effective_pred (auc_from_logits self) pred) (nd_greater gt 0)
      (nd_equal gt (auc_ignore_label self))"
  show ?thesis
  proof (cases ?c)
    case (Inl e)
    with compute_auc_error [OF Inl] False show ?thesis
      by (simp add: auc_update_def Let_def)
  next
    case (Inr r)
    with False compute_auc_empty [of f _ "nd_greater gt 0"] have "r \<noteq> []" by auto
    with Inr False show ?thesis
      by (simp add: auc_update_def Let_def np_mean_def)
  qed
qed

text \<open>
  C8. When \<open>_compute_auc\<close> retains no sample of the batch, \<open>AUC.update\<close> returns the
  state it was given (average, epoch sum and epoch count unchanged): every sample then has
  no positive ground-truth position, and the guard of line 102 has returned before the
  mean is taken. On no batch does the call take the mean of an empty sequence.
\<close>

theorem no_retained_sample_no_update:
  "(compute_auc pr_auc (effective_pred (auc_from_logits self) pred) (nd_greater gt 0)
       (nd_equal gt (auc_ignore_label self)) = Inr []
      \<longrightarrow> auc_update pr_auc self pred gt = Inr self)
   \<and> auc_update pr_auc self pred gt \<noteq> Inl UndefinedMean"
  using compute_auc_empty [of pr_auc "effective_pred (auc_from_logits self) pred"
      "nd_greater gt 0" "nd_equal gt (auc_ignore_label self)"]
  by (simp add: auc_update_guard auc_update_no_nan)

theorem no_retained_sample_no_update_witness:
  "compute_auc (\<lambda>g p. 1) [[3/10, 7/10], [1/2, 1/5]] (nd_greater [[0, 0], [- 1, 0]] 0)
       (nd_equal [[0, 0], [- 1, 0]] (- 1)) = Inr []
   \<and> auc_update (\<lambda>g p. 1)
        \<lparr> auc_pred_outputs = [''instances''], auc_gt_outputs = [''instances''],
          auc_ignore_label = - 1, auc_from_logits = False, beta = 9/10, ema_auc = 1/2,
          epoch_auc_sum = 3, auc_epoch_batch_count = 4 \<rparr>
        [[3/10, 7/10], [1/2, 1/5]] [[0, 0], [- 1, 0]]
      = Inr \<lparr> auc_pred_outputs = [''instances''], auc_gt_outputs = [''instances''],
          auc_ignore_label = - 1, auc_from_logits = False, beta = 9/10, ema_auc = 1/2,
          epoch_auc_sum = 3, auc_epoch_batch_count = 4 \<rparr>"
proof -
  have c: "compute_auc (\<lambda>g p. 1) [[3/10, 7/10], [1/2, 1/5]] (nd_greater [[0, 0], [- 1, 0]] 0)
       (nd_equal [[0, 0], [- 1, 0]] (- 1)) = Inr []"
    by (simp add: compute_auc_def eval_defs)
  from no_retained_sample_no_update [of "\<lambda>g p. 1"
        "\<lparr> auc_pred_outputs = [''instances''], auc_gt_outputs = [''instances''],
          auc_ignore_label = - 1, auc_from_logits = False, beta = 9/10, ema_auc = 1/2,
          epoch_auc_sum = 3, auc_epoch_batch_count = 4 \<rparr>"
        "[[3/10, 7/10], [1/2, 1/5]]" "[[0, 0], [- 1, 0]]"] c
  show ?thesis by (simp add: effective_pred_def)
qed

subsection \<open>The range of the threshold\<close>

lemma sigmoid_unit: "0 < sigmoid x \<and> sigmoid x < 1"
proof -
  have "0 < exp (- x)" by simp
  then show ?thesis unfolding sigmoid_def by (simp add: add_pos_pos)
qed

lemma sigmoid_probabilities: "probabilities (nd_sigmoid pred)"
  by (simp add: probabilities_def nd_sigmoid_def list_all_iff sigmoid_unit)

lemma intersection_empty_mask:
  assumes "\<forall>row\<in>set pred. \<forall>x\<in>set row. x \<le> c"
    and "k < length pred" "length im = length pred" "length gm = length pred"
  shows "iou_intersection (nd_greater pred c) gm im ! k = 0"
proof -
  have "pred ! k \<in> set pred" using assms(2) by simp
  with assms(1) have row: "\<forall>x\<in>set (pred ! k). x \<le> c" by blast
  have "filter (\<lambda>b. b) (map2 (\<and>) (map2 (\<lambda>ce ye. \<not> ce \<and> ye) (im ! k)
          (map (\<lambda>x. x > c) (pred ! k))) (gm ! k)) = []"
    using row by (fastforce simp: filter_empty_conv in_set_zip all_set_conv_all_nth)
  then have "count_true (map2 (\<and>) (map2 (\<lambda>ce ye. \<not> ce \<and> ye) (im ! k)
          (map (\<lambda>x. x > c) (pred ! k))) (gm ! k)) = 0"
    by (simp add: count_true_def)
  moreover have "length (nd_greater pred c) = length pred" by (simp add: nd_greater_def)
  ultimately show ?thesis
    using assms(2-4) by (simp add: iou_intersection_nth intersection_mask_nth nd_greater_nth)
qed

lemma empty_mask_score:
  assumes "\<forall>row\<in>set pred. \<forall>x\<in>set row. x \<le> c"
    and "candidate_iou pred gm im c = Inr m"
  shows "m = 0"
proof -
  let ?pm = "nd_greater pred c"
  let ?I = "iou_intersection ?pm gm im"
  let ?U = "iou_union ?pm gm im"
  from assms(2) obtain r where r: "compute_iou ?pm gm im False = Inr r"
    and m: "np_mean r = Inr m"
    by (auto simp: candidate_iou_def split: sum.splits)
  have sh: "same_shape im ?pm" "same_shape ?pm gm"
    using compute_iou_Inr [OF r] by simp_all
  have lp: "length ?pm = length pred" by (simp add: nd_greater_def)
  have l: "length im = length pred" "length gm = length pred"
    using same_shape_length [OF sh(1)] same_shape_length [OF sh(2)] lp by simp_all
  have len: "length ?I = length pred" "length ?U = length pred"
    using mean_lengths [of im ?pm gm] l lp by simp_all
  have req: "r = map (\<lambda>(i, u). i / u) (filter (\<lambda>(i, u). u > 0) (zip ?I ?U))"
    using r compute_iou_drop [OF sh] by simp
  have "\<forall>v\<in>set r. v = 0"
  proof
    fix v assume "v \<in> set r"
    with req obtain i u where iu: "(i, u) \<in> set (zip ?I ?U)" "v = i / u" by auto
    from iu(1) obtain k where k: "k < length pred" "?I ! k = i"
      using len by (auto simp: in_set_zip)
    from intersection_empty_mask [OF assms(1) k(1) l] k(2) iu(2) show "v = 0" by simp
  qed
  then have "sum_list r = 0" by (induction r) auto
  with m show ?thesis by (auto simp: np_mean_def split: if_splits)
qed

lemma full_mask_same:
  assumes "\<forall>row\<in>set pred. \<forall>x\<in>set row. a < x \<and> b < x"
  shows "nd_greater pred a = nd_greater pred b"
  using assms by (simp add: nd_greater_def)

lemma probabilities_D:
  "probabilities pred \<Longrightarrow> row \<in> set pred \<Longrightarrow> x \<in> set row \<Longrightarrow> 0 < x \<and> x < 1"
  by (auto simp: probabilities_def list_all_iff)

lemma update_threshold_interval:
  assumes u: "update self pred gt = Inr self'"
    and beta: "0 \<le> thresh_beta self" "thresh_beta self \<le> 1"
    and step: "0 \<le> thresh_step self"
    and pr: "probabilities (effective_pred (from_logits self) pred)"
    and lo: "- ((1 - thresh_beta self) * thresh_step self) < iou_thresh self"
    and hi: "iou_thresh self < 1"
  shows "- ((1 - thresh_beta self) * thresh_step self) < iou_thresh self'
       \<and> iou_thresh self' < 1
       \<and> thresh_beta self' = thresh_beta self \<and> thresh_step self' = thresh_step self
       \<and> from_logits self' = from_logits self"
proof (cases "np_all_zero (nd_sum (nd_greater gt 0))")
  case True
  with u have "self' = self" by (simp add: update_guard)
  with lo hi show ?thesis by simp
next
  case False
  let ?P = "effective_pred (from_logits self) pred"
  let ?gm = "nd_greater gt 0"
  let ?im = "nd_equal gt (ignore_label self)"
  let ?t = "iou_thresh self"
  let ?s = "thresh_step self"
  define q where "q = (1 - thresh_beta self) * thresh_step self"
  from update_search [OF False u] obtain m0 m1 m2 max_iou best_thresh where
    c0: "candidate_iou ?P ?gm ?im ?t = Inr m0" and
    c1: "candidate_iou ?P ?gm ?im (?t - ?s) = Inr m1" and
    c2: "candidate_iou ?P ?gm ?im (?t + ?s) = Inr m2" and
    sel: "(max_iou, best_thresh) =
        (if m1 \<le> m0 \<and> m2 \<le> m0 then (m0, ?t)
         else if m2 \<le> m1 then (m1, ?t - ?s) else (m2, ?t + ?s))" and
    s: "self' = self\<lparr> iou_thresh := thresh_beta self * iou_thresh self
                                   + (1 - thresh_beta self) * best_thresh,
                      ema_iou := iou_beta self * ema_iou self + (1 - iou_beta self) * max_iou,
                      epoch_iou_sum := epoch_iou_sum self + max_iou,
                      epoch_batch_count := epoch_batch_count self + 1 \<rparr>"
    by blast
  have p: "0 \<le> q" "q \<le> ?s"
    unfolding q_def using beta step by (simp_all add: mult_left_le_one_le)
  have lo': "- q < ?t" using lo unfolding q_def .
  have t': "iou_thresh self' = ?t + (1 - thresh_beta self) * (best_thresh - ?t)"
    using s by (simp add: algebra_simps)
  have cfg: "thresh_beta self' = thresh_beta self" "thresh_step self' = thresh_step self"
    "from_logits self' = from_logits self"
    using s by simp_all
  have m1_nonneg: "0 \<le> m1" using candidate_iou_unit [OF c1] by simp
  have minus: "0 < ?t" if "m0 < m1"
  proof (rule ccontr)
    assume "\<not> 0 < ?t"
    then have "\<forall>row\<in>set ?P. \<forall>x\<in>set row. ?t < x \<and> ?t - ?s < x"
      using probabilities_D [OF pr] step by fastforce
    from full_mask_same [OF this] c0 c1 have "m0 = m1" by (simp add: candidate_iou_def)
    with that show False by simp
  qed
  have plus: "?t + ?s < 1" if "0 < m2"
  proof (rule ccontr)
    assume "\<not> ?t + ?s < 1"
    then have "\<forall>row\<in>set ?P. \<forall>x\<in>set row. x \<le> ?t + ?s"
      using probabilities_D [OF pr] by fastforce
    from empty_mask_score [OF this c2] that show False by simp
  qed
  consider (keep) "m1 \<le> m0 \<and> m2 \<le> m0" | (down) "\<not> (m1 \<le> m0 \<and> m2 \<le> m0)" "m2 \<le> m1"
    | (up) "\<not> (m1 \<le> m0 \<and> m2 \<le> m0)" "\<not> m2 \<le> m1" by blast
  then have "- q < iou_thresh self' \<and> iou_thresh self' < 1"
  proof cases
    case keep
    with sel have "best_thresh = ?t" by simp
    with t' lo' hi show ?thesis by simp
  next
    case down
    with sel have b: "best_thresh = ?t - ?s" by simp
    from down have "m0 < m1" by auto
    from minus [OF this] have "0 < ?t" .
    moreover have "iou_thresh self' = ?t - q"
      unfolding t' b q_def by (simp add: algebra_simps)
    ultimately show ?thesis using p hi by linarith
  next
    case up
    with sel have b: "best_thresh = ?t + ?s" by simp
    from up m1_nonneg have "0 < m2" by auto
    from plus [OF this] have "?t + ?s < 1" .
    moreover have "iou_thresh self' = ?t + q"
      unfolding t' b q_def by (simp add: algebra_simps)
    ultimately show ?thesis using p lo' by linarith
  qed
  with cfg show ?thesis unfolding q_def by simp
qed

lemma updates_threshold_interval:
  assumes "updates self batches = Inr self'"
    and "0 \<le> thresh_beta self" "thresh_beta self \<le> 1" "0 \<le> thresh_step self"
    and "list_all (\<lambda>(pred, gt). probabilities (effective_pred (from_logits self) pred)) batches"
    and "- ((1 - thresh_beta self) * thresh_step self) < iou_thresh self" "iou_thresh self < 1"
  shows "- ((1 - thresh_beta self) * thresh_step self) < iou_thresh self' \<and> iou_thresh self' < 1"
  using assms
proof (induction batches arbitrary: self)
  case Nil
  then show ?case by simp
next
  case (Cons b batches)
  obtain pred gt where b: "b = (pred, gt)" by (cases b)
  from Cons.prems(1) obtain s1 where u: "update self pred gt = Inr s1"
    and r: "updates s1 batches = Inr self'"
    unfolding b by (auto split: sum.splits)
  have pr: "probabilities (effective_pred (from_logits self) pred)"
    using Cons.prems(5) unfolding b by simp
  from update_threshold_interval [OF u Cons.prems(2,3,4) pr Cons.prems(6,7)]
  have i: "- ((1 - thresh_beta self) * thresh_step self) < iou_thresh s1" "iou_thresh s1 < 1"
    and c: "thresh_beta s1 = thresh_beta self" "thresh_step s1 = thresh_step self"
       "from_logits s1 = from_logits self"
    by simp_all
  have "- ((1 - thresh_beta s1) * thresh_step s1) < iou_thresh self' \<and> iou_thresh self' < 1"
    using Cons.IH [OF r] Cons.prems(2,3,4,5) i unfolding c b by simp
  then show ?case unfolding c .
qed


text \<open>
  The threshold does not stay in \<open>(0, 1)\<close>: nothing clamps it. From the initial threshold
  \<open>0.0001\<close>, with the default step and rates, one batch whose single position is positive
  and predicted with probability \<open>0.00005\<close> scores 0 at the threshold and 1 at the
  threshold minus the step, and moves the threshold to \<open>-0.00015\<close>.
\<close>

theorem threshold_leaves_unit_interval:
  "0 < iou_thresh (init_AdaptiveIoU (1/10000) (1/40) (99/100) (9/10) (- 1) False
                     ''instances'' ''instances'')
   \<and> iou_thresh (init_AdaptiveIoU (1/10000) (1/40) (99/100) (9/10) (- 1) False
                     ''instances'' ''instances'') < 1
   \<and> probabilities [[1/20000]]
   \<and> updates (init_AdaptiveIoU (1/10000) (1/40) (99/100) (9/10) (- 1) False
                ''instances'' ''instances'') [([[1/20000]], [[1]])]
      = Inr ((init_AdaptiveIoU (1/10000) (1/40) (99/100) (9/10) (- 1) False
                ''instances'' ''instances'')
               \<lparr> iou_thresh := - (3/20000), ema_iou := 1/10, epoch_iou_sum := 1,
                 epoch_batch_count := 1 \<rparr>)
   \<and> \<not> (0 :: real) < - (3/20000)"
  by (simp add: probabilities_def update_eval eval_defs)

text \<open>
  C9 (amended). With rates in \<open>[0, 1]\<close>, a step that is not negative and predictions that
  are probabilities (given as such, or made so by the logistic transform), a threshold
  that starts in \<open>(0, 1)\<close> stays, after every sequence of \<open>update\<close> calls, below 1 and
  above \<open>-(1 - thresh_beta) * thresh_step\<close>: a candidate at or above 1 scores 0 and is
  never chosen, and once the threshold is at or below 0 the lower candidate gives the same
  mask and is never chosen.
\<close>

theorem threshold_interval_invariant:
  assumes "updates self batches = Inr self'"
    and "0 \<le> thresh_beta self" and "thresh_beta self \<le> 1" and "0 \<le> thresh_step self"
    and "0 < iou_thresh self" and "iou_thresh self < 1"
    and "list_all (\<lambda>(pred, gt). from_logits self \<or> probabilities pred) batches"
  shows "- ((1 - thresh_beta self) * thresh_step self) < iou_thresh self'
       \<and> iou_thresh self' < 1"
proof -
  have "0 \<le> (1 - thresh_beta self) * thresh_step self"
    using assms(3,4) by simp
  with assms(5) have lo: "- ((1 - thresh_beta self) * thresh_step self) < iou_thresh self"
    by linarith
  have "list_all (\<lambda>(pred, gt). probabilities (effective_pred (from_logits self) pred)) batches"
    using assms(7) by (auto simp: list_all_iff effective_pred_def sigmoid_probabilities)
  from updates_threshold_interval [OF assms(1,2,3,4) this lo assms(6)] show ?thesis .
qed

theorem threshold_interval_invariant_witness:
  "updates (init_AdaptiveIoU (1/10000) (1/40) (99/100) (9/10) (- 1) False
                ''instances'' ''instances'') [([[1/20000]], [[1]]), ([[1/20000]], [[1]])]
      = Inr ((init_AdaptiveIoU (1/10000) (1/40) (99/100) (9/10) (- 1) False
                ''instances'' ''instances'')
               \<lparr> iou_thresh := - (3/20000), ema_iou := 19/100, epoch_iou_sum := 2,
                 epoch_batch_count := 2 \<rparr>)
   \<and> probabilities [[1/20000]]
   \<and> - ((1 - 99/100) * (1/40)) < (- (3/20000) :: real) \<and> (- (3/20000) :: real) < 1"
proof -
  let ?S = "init_AdaptiveIoU (1/10000) (1/40) (99/100) (9/10) (- 1) False
                ''instances'' ''instances''"
  have r: "updates ?S [([[1/20000]], [[1]]), ([[1/20000]], [[1]])]
      = Inr (?S \<lparr> iou_thresh := - (3/20000), ema_iou := 19/100, epoch_iou_sum := 2,
                 epoch_batch_count := 2 \<rparr>)"
    by (simp add: update_eval eval_defs)
  have p: "probabilities [[1/20000]]" by (simp add: probabilities_def)
  have c: "0 \<le> thresh_beta ?S" "thresh_beta ?S \<le> 1" "0 \<le> thresh_step ?S"
    "0 < iou_thresh ?S" "iou_thresh ?S < 1"
    by (simp_all add: init_AdaptiveIoU_def)
  have b: "list_all (\<lambda>(pred, gt). from_logits ?S \<or> probabilities pred)
      [([[1/20000]], [[1]]), ([[1/20000]], [[1]])]"
    using p by simp
  from threshold_interval_invariant [OF r c b] r p show ?thesis
    by (simp add: init_AdaptiveIoU_def)
qed

end
